theory Spec2Isabelle
  imports Main "HOL-Library.Sublist" "HOL-Library.Multiset" "HOL-Library.Signed_Division"
begin

text \<open>
  The repository is a collection of independent C++ teaching files. This theory embeds
  the single-function algorithm exercises (symmetric tree, subsequence test, in-place
  merge, digit divisibility), the \<^verbatim>\<open>Event\<close> class of the event scheduler file, and
  \<^verbatim>\<open>Account::withdraw\<close> and two dry-run programs of the bank file, and proves what
  they compute.

  Conventions of the embedding. A C++ \<^verbatim>\<open>int\<close> is an \<open>int\<close>. In the algorithm
  exercises and for the transaction counter, every addition, subtraction and
  multiplication carries the check that its result is in the 32-bit range; leaving the
  range is undefined behaviour. The dry-run programs compute with the small literals of
  their text, and the event counter is read by no check of the class. Behaviour that C++
  leaves undefined is a value of type \<open>undefined_behaviour\<close>; an exception is a value
  of type \<open>exception\<close>; a member function that mutates its object takes the object and
  returns the object afterwards. A \<^verbatim>\<open>double\<close> is a binary64 number with its own
  comparison and subtraction.
\<close>

section \<open>Undefined behaviour, exceptions and the range of int\<close>

datatype undefined_behaviour = IndexOutOfRange | SignedOverflow | DivisionByZero | PopBackOnEmpty

datatype exception = EventException string | BankException string

definition INT_MAX :: int where "INT_MAX = 2147483647"
definition INT_MIN :: int where "INT_MIN = - 2147483648"

definition is_int :: "int \<Rightarrow> bool" where
  "is_int v \<longleftrightarrow> INT_MIN \<le> v \<and> v \<le> INT_MAX"

section \<open>LeetCode snippet 09: symmetric tree\<close>

text \<open>
  \<^verbatim>\<open>struct TreeNode { int val; TreeNode *left; TreeNode *right; }\<close>.
  A \<^verbatim>\<open>TreeNode*\<close> is either the null pointer or points to a node holding a value and
  two further pointers; the constructor arguments are in the order val, left, right.
\<close>

datatype TreeNode = Nullptr | TreeNode int TreeNode TreeNode

text \<open>
  \<^verbatim>\<open>
  bool isMirror(TreeNode* leftRoot, TreeNode* rightRoot) {
      if (!leftRoot && !rightRoot) return true;
      if (!leftRoot || !rightRoot) return false;
      return leftRoot->val == rightRoot->val && isMirror(leftRoot->left, rightRoot->right)
                                             && isMirror(leftRoot->right, rightRoot->left);
  }
  bool isSymmetric(TreeNode* root) {
      if (!root) return false;
      return isMirror(root->left, root->right);
  }
  \<close>
\<close>

fun isMirror :: "TreeNode \<Rightarrow> TreeNode \<Rightarrow> bool" where
  "isMirror Nullptr Nullptr = True"
| "isMirror Nullptr (TreeNode v l r) = False"
| "isMirror (TreeNode v l r) Nullptr = False"
| "isMirror (TreeNode lv ll lr) (TreeNode rv rl rr) =
     (lv = rv \<and> isMirror ll rr \<and> isMirror lr rl)"

fun isSymmetric :: "TreeNode \<Rightarrow> bool" where
  "isSymmetric Nullptr = False"
| "isSymmetric (TreeNode v l r) = isMirror l r"

text \<open>
  The specification side: the mirror image of a tree swaps the two children at every
  node, and a tree is a mirror of itself when it equals its mirror image.
\<close>

fun mirror_image :: "TreeNode \<Rightarrow> TreeNode" where
  "mirror_image Nullptr = Nullptr"
| "mirror_image (TreeNode v l r) = TreeNode v (mirror_image r) (mirror_image l)"

definition mirror_of_itself :: "TreeNode \<Rightarrow> bool" where
  "mirror_of_itself t \<longleftrightarrow> mirror_image t = t"

section \<open>LeetCode snippet 10: subsequence test\<close>

text \<open>
  \<^verbatim>\<open>
  bool isSubsequence(string s, string t) {
      int i=0;
      int j=0;
      while (i<s.length() && j<t.length()){
          if (s[i]==t[j]){ i++; }
          j++;
      }
      return i==s.length();
  }
  \<close>
  The loop is a recursive function on the two counters that returns the final value of
  \<^verbatim>\<open>i\<close>. The counters are \<^verbatim>\<open>int\<close>: \<^verbatim>\<open>i++\<close> and \<^verbatim>\<open>j++\<close> past
  \<open>INT_MAX\<close> are undefined behaviour. In \<^verbatim>\<open>i<s.length()\<close> and \<^verbatim>\<open>i==s.length()\<close>
  the counter is converted to the unsigned type of the length: a counter that is not
  negative keeps its value, a negative one would become a number above every length.
\<close>

definition less_size_t :: "int \<Rightarrow> nat \<Rightarrow> bool" where
  "less_size_t i len \<longleftrightarrow> 0 \<le> i \<and> i < int len"

definition equal_size_t :: "int \<Rightarrow> nat \<Rightarrow> bool" where
  "equal_size_t i len \<longleftrightarrow> i = int len"

function isSubsequence_loop ::
  "string \<Rightarrow> string \<Rightarrow> int \<Rightarrow> int \<Rightarrow> undefined_behaviour + int" where
  "isSubsequence_loop s t i j =
     (if less_size_t i (length s) \<and> less_size_t j (length t)
      then if s ! nat i = t ! nat j
           then if is_int (i + 1) \<and> is_int (j + 1)
                then isSubsequence_loop s t (i + 1) (j + 1)
                else Inl SignedOverflow
           else if is_int (j + 1)
                then isSubsequence_loop s t i (j + 1)
                else Inl SignedOverflow
      else Inr i)"
  by pat_completeness auto
termination
  by (relation "measure (\<lambda>(s, t, i, j). length t - nat j)")
     (auto simp: less_size_t_def)

declare isSubsequence_loop.simps [simp del]

definition isSubsequence :: "string \<Rightarrow> string \<Rightarrow> undefined_behaviour + bool" where
  "isSubsequence s t =
     (case isSubsequence_loop s t 0 0 of
        Inl ub \<Rightarrow> Inl ub
      | Inr i \<Rightarrow> Inr (equal_size_t i (length s)))"

text \<open>
  The specification side, in the words of the problem statement: \<open>s\<close> is formed from
  \<open>t\<close> by deleting some (possibly none) of the characters without disturbing the
  relative positions of the remaining ones. \<open>kept\<close> is the set of positions of \<open>t\<close>
  that are not deleted.
\<close>

definition formed_by_deleting :: "string \<Rightarrow> string \<Rightarrow> bool" where
  "formed_by_deleting s t \<longleftrightarrow> (\<exists>kept. s = nths t kept)"

text \<open>A text of \<open>2\<^sup>3\<^sup>1\<close> letters a followed by one b: longer than \<open>INT_MAX\<close>.\<close>

definition long_text :: string where
  "long_text = replicate 2147483648 CHR ''a'' @ ''b''"

section \<open>LeetCode snippet 11: merging sorted arrays in place\<close>

text \<open>
  \<^verbatim>\<open>
  void merge(vector<int>& nums1, int m, vector<int>& nums2, int n) {
      int i= m-1;
      int j= n-1;
      int endSize =m+n-1;
      while (j>=0){
          if (i>=0 && nums1[i]>nums2[j]) {
              nums1[endSize] =nums1[i];
              i--;
          }
          else{
              nums1[endSize] =nums2[j];
              j--;
          }
          endSize--;
      }
  }
  \<close>
  \<^verbatim>\<open>operator[]\<close> of a vector is unchecked: an index outside the vector is undefined
  behaviour. Every iteration reads \<^verbatim>\<open>nums2[j]\<close> (in the condition when \<^verbatim>\<open>i>=0\<close>,
  in the else branch otherwise), reads \<^verbatim>\<open>nums1[i]\<close> when \<^verbatim>\<open>i>=0\<close>, and writes
  \<^verbatim>\<open>nums1[endSize]\<close>. The three counters are \<^verbatim>\<open>int\<close>: computing \<^verbatim>\<open>m-1\<close>,
  \<^verbatim>\<open>n-1\<close>, \<^verbatim>\<open>m+n\<close> and \<^verbatim>\<open>m+n-1\<close>, and every decrement, is undefined
  behaviour when the result leaves the range. The function returns nothing: the model
  returns the vector \<^verbatim>\<open>nums1\<close> as it is after the call.
\<close>

definition in_bounds :: "'a list \<Rightarrow> int \<Rightarrow> bool" where
  "in_bounds xs k \<longleftrightarrow> 0 \<le> k \<and> k < int (length xs)"

function merge_loop ::
  "int list \<Rightarrow> int list \<Rightarrow> int \<Rightarrow> int \<Rightarrow> int \<Rightarrow> undefined_behaviour + int list" where
  "merge_loop nums1 nums2 i j endSize =
     (if j \<ge> 0 then
        if (i \<ge> 0 \<longrightarrow> in_bounds nums1 i) \<and> in_bounds nums2 j \<and> in_bounds nums1 endSize
        then if i \<ge> 0 \<and> nums1 ! nat i > nums2 ! nat j
             then if is_int (i - 1) \<and> is_int (endSize - 1)
                  then merge_loop (nums1[nat endSize := nums1 ! nat i]) nums2
                         (i - 1) j (endSize - 1)
                  else Inl SignedOverflow
             else if is_int (j - 1) \<and> is_int (endSize - 1)
                  then merge_loop (nums1[nat endSize := nums2 ! nat j]) nums2
                         i (j - 1) (endSize - 1)
                  else Inl SignedOverflow
        else Inl IndexOutOfRange
      else Inr nums1)"
  by pat_completeness auto
termination
  by (relation "measure (\<lambda>(nums1, nums2, i, j, endSize). nat (i + 1) + nat (j + 1))") auto

declare merge_loop.simps [simp del]

definition merge :: "int list \<Rightarrow> int \<Rightarrow> int list \<Rightarrow> int \<Rightarrow> undefined_behaviour + int list" where
  "merge nums1 m nums2 n =
     (if is_int (m - 1) \<and> is_int (n - 1) \<and> is_int (m + n) \<and> is_int (m + n - 1)
      then merge_loop nums1 nums2 (m - 1) (n - 1) (m + n - 1)
      else Inl SignedOverflow)"

section \<open>LeetCode snippet 12: divisibility by digit sum and product\<close>

text \<open>
  \<^verbatim>\<open>
  bool checkDivisibility(int n) {
      int digitSum=0;
      int digitProduct=1;
      int temp=n;
      while (temp!=0){
          int remain = temp%10;
          digitSum+= remain;
          digitProduct*= remain;
          temp/=10;
      }
      int res =digitSum+digitProduct;
      if (n%res)return false;
      return true;
  }
  \<close>
  \<^verbatim>\<open>/\<close> and \<^verbatim>\<open>%\<close> on \<^verbatim>\<open>int\<close> truncate towards zero (\<open>sdiv\<close>, \<open>smod\<close>). A sum
  or product outside the range of \<^verbatim>\<open>int\<close>, and a remainder by zero, are undefined
  behaviour.
\<close>

function digit_loop :: "int \<Rightarrow> int \<Rightarrow> int \<Rightarrow> undefined_behaviour + int \<times> int" where
  "digit_loop temp digitSum digitProduct =
     (if temp \<noteq> 0 then
        let remain = temp smod 10 in
        if is_int (digitSum + remain) \<and> is_int (digitProduct * remain)
        then digit_loop (temp sdiv 10) (digitSum + remain) (digitProduct * remain)
        else Inl SignedOverflow
      else Inr (digitSum, digitProduct))"
  by pat_completeness auto
termination
proof (relation "measure (\<lambda>(temp, digitSum, digitProduct). nat \<bar>temp\<bar>)")
  fix temp digitSum digitProduct remain :: int
  assume "temp \<noteq> 0"
  then have "\<bar>temp sdiv 10\<bar> < \<bar>temp\<bar>"
    by (simp add: signed_divide_int_def abs_mult abs_sgn_eq)
  then show "((temp sdiv 10, digitSum + remain, digitProduct * remain), temp, digitSum, digitProduct)
      \<in> measure (\<lambda>(temp, digitSum, digitProduct). nat \<bar>temp\<bar>)"
    by simp
qed simp

declare digit_loop.simps [simp del]

definition checkDivisibility :: "int \<Rightarrow> undefined_behaviour + bool" where
  "checkDivisibility n =
     (case digit_loop n 0 1 of
        Inl ub \<Rightarrow> Inl ub
      | Inr (digitSum, digitProduct) \<Rightarrow>
          let res = digitSum + digitProduct in
          if \<not> is_int res then Inl SignedOverflow
          else if res = 0 then Inl DivisionByZero
          else if n = INT_MIN \<and> res = - 1 then Inl SignedOverflow
          else if n smod res \<noteq> 0 then Inr False
          else Inr True)"

text \<open>
  The specification side: the sum and the product of the decimal digits of a number.
\<close>

function sum_of_digits :: "nat \<Rightarrow> nat" where
  "sum_of_digits n = (if n = 0 then 0 else n mod 10 + sum_of_digits (n div 10))"
  by pat_completeness auto
termination
  by (relation "measure id") auto

function product_of_digits :: "nat \<Rightarrow> nat" where
  "product_of_digits n = (if n = 0 then 1 else (n mod 10) * product_of_digits (n div 10))"
  by pat_completeness auto
termination
  by (relation "measure id") auto

declare sum_of_digits.simps [simp del] product_of_digits.simps [simp del]

section \<open>Console output\<close>

text \<open>
  \<^verbatim>\<open>cout\<close> is modelled by the text written so far; \<^verbatim>\<open>os << v\<close> appends the
  rendering of \<^verbatim>\<open>v\<close>. An \<^verbatim>\<open>int\<close> is rendered in decimal, with a leading minus
  sign when negative.
\<close>

function decimal :: "nat \<Rightarrow> string" where
  "decimal n =
     (if n < 10 then [''0123456789'' ! n]
      else decimal (n div 10) @ [''0123456789'' ! (n mod 10)])"
  by pat_completeness auto
termination
  by (relation "measure id") auto

definition put_int :: "string \<Rightarrow> int \<Rightarrow> string" where
  "put_int os i = os @ (if i < 0 then ''-'' @ decimal (nat (- i)) else decimal (nat i))"

definition put_str :: "string \<Rightarrow> string \<Rightarrow> string" where
  "put_str os s = os @ s"

section \<open>Bank file, dry-run problem 3: operator overloading\<close>

text \<open>
  \<^verbatim>\<open>
  class Bank {
      int balance;
  public:
      Bank(int b) : balance(b) {}
      Bank operator+(const Bank& other) { return Bank(balance + other.balance + 100); }
      friend ostream& operator<<(ostream& os, const Bank& bank) {
          return os << "Bank($" << bank.balance << ")";
      }
  };
  int main() { Bank b1(1000), b2(2000); cout << b1 + b2; return 0; }
  \<close>
\<close>

datatype Bank = Bank (Bank_balance: int)

definition Bank_plus :: "Bank \<Rightarrow> Bank \<Rightarrow> Bank" where
  "Bank_plus this other = Bank (Bank_balance this + Bank_balance other + 100)"

definition Bank_put :: "string \<Rightarrow> Bank \<Rightarrow> string" where
  "Bank_put os bank = put_str (put_int (put_str os ''Bank($'') (Bank_balance bank)) '')''"

definition problem3_main :: "string" where
  "problem3_main = (let b1 = Bank 1000; b2 = Bank 2000 in Bank_put [] (Bank_plus b1 b2))"

section \<open>Bank file, dry-run problem 1: construction and destruction order\<close>

text \<open>
  \<^verbatim>\<open>
  class Base {
      int x;
  public:
      Base(int val) : x(val) { cout << "Base(" << x << ")"; }
      virtual ~Base() { cout << "~Base(" << x << ")"; }
  };
  class Derived : public Base {
      int y;
  public:
      Derived(int val1, int val2) : Base(val1), y(val2) { cout << "Derived(" << y << ")"; }
      ~Derived() { cout << "~Derived(" << y << ")"; }
  };
  int main() { Base* ptr = new Derived(10, 20); delete ptr; return 0; }
  \<close>
  A \<^verbatim>\<open>Derived\<close> object consists of its \<^verbatim>\<open>Base\<close> subobject and the member
  \<^verbatim>\<open>y\<close>. What a \<^verbatim>\<open>Base*\<close> points to carries its dynamic type. Every constructor
  and destructor takes the console text so far and returns the text afterwards.
\<close>

datatype Base = Base (Base_x: int)

datatype Derived = Derived (Derived_base: Base) (Derived_y: int)

datatype Base_object = IsBase Base | IsDerived Derived

definition Base_ctor :: "int \<Rightarrow> string \<Rightarrow> Base \<times> string" where
  "Base_ctor val os =
     (let this = Base val
      in (this, put_str (put_int (put_str os ''Base('') (Base_x this)) '')''))"

definition Base_dtor :: "Base \<Rightarrow> string \<Rightarrow> string" where
  "Base_dtor this os = put_str (put_int (put_str os ''~Base('') (Base_x this)) '')''"

text \<open>
  The mem-initializer list runs the base constructor first, then initialises \<^verbatim>\<open>y\<close>,
  then the constructor body runs.
\<close>

definition Derived_ctor :: "int \<Rightarrow> int \<Rightarrow> string \<Rightarrow> Derived \<times> string" where
  "Derived_ctor val1 val2 os =
     (let (b, os1) = Base_ctor val1 os;
          this = Derived b val2
      in (this, put_str (put_int (put_str os1 ''Derived('') (Derived_y this)) '')''))"

text \<open>
  The destructor body of \<^verbatim>\<open>Derived\<close> runs first, then the destructor of its base
  subobject.
\<close>

definition Derived_dtor :: "Derived \<Rightarrow> string \<Rightarrow> string" where
  "Derived_dtor this os =
     Base_dtor (Derived_base this)
       (put_str (put_int (put_str os ''~Derived('') (Derived_y this)) '')'')"

text \<open>
  \<^verbatim>\<open>delete ptr\<close> on a \<^verbatim>\<open>Base*\<close>: the destructor is virtual, so the destructor of
  the dynamic type is called.
\<close>

definition delete_Base_ptr :: "Base_object \<Rightarrow> string \<Rightarrow> string" where
  "delete_Base_ptr ptr os =
     (case ptr of IsBase b \<Rightarrow> Base_dtor b os | IsDerived d \<Rightarrow> Derived_dtor d os)"

definition problem1_main :: "string" where
  "problem1_main =
     (let (d, os1) = Derived_ctor 10 20 [];
          ptr = IsDerived d
      in delete_Base_ptr ptr os1)"

section \<open>The type double\<close>

text \<open>
  A \<^verbatim>\<open>double\<close> is an IEEE 754 binary64 number: not-a-number, an infinity with its
  sign, or a finite number \<open>Finite s m e\<close> of value \<open>(-1)\<^sup>s \<sqdot> m \<sqdot> 2\<^sup>e\<close> with \<open>m < 2\<^sup>5\<^sup>3\<close> and
  \<open>-1074 \<le> e \<le> 971\<close> (zero carries a sign). Comparisons with not-a-number are false.
  Subtraction computes the exact difference and rounds it to the nearest representable
  number, ties to the even significand, and to an infinity beyond the largest exponent.
  One number may be written with several pairs \<open>m\<close>, \<open>e\<close>; the operations depend on the
  value only.
\<close>

datatype double = NaN | Infinity bool | Finite bool nat int

text \<open>
  \<open>scaled s m e e0\<close> is the finite number \<open>Finite s m e\<close> counted in units of \<open>2\<^sup>e\<^sup>0\<close>, for
  \<open>e0 \<le> e\<close>: a whole number. Two finite numbers are compared, and subtracted exactly,
  in units of the smaller of their two powers of two.
\<close>

definition scaled :: "bool \<Rightarrow> nat \<Rightarrow> int \<Rightarrow> int \<Rightarrow> int" where
  "scaled s m e e0 = (if s then - int m else int m) * 2 ^ nat (e - e0)"

fun double_less :: "double \<Rightarrow> double \<Rightarrow> bool" where
  "double_less NaN y = False"
| "double_less x NaN = False"
| "double_less (Infinity sx) (Infinity sy) = (sx \<and> \<not> sy)"
| "double_less (Infinity sx) (Finite sy my ey) = sx"
| "double_less (Finite sx mx ex) (Infinity sy) = (\<not> sy)"
| "double_less (Finite sx mx ex) (Finite sy my ey) =
     (let e0 = min ex ey in scaled sx mx ex e0 < scaled sy my ey e0)"

fun double_less_eq :: "double \<Rightarrow> double \<Rightarrow> bool" where
  "double_less_eq NaN y = False"
| "double_less_eq x NaN = False"
| "double_less_eq (Infinity sx) (Infinity sy) = (if sx then True else \<not> sy)"
| "double_less_eq (Infinity sx) (Finite sy my ey) = sx"
| "double_less_eq (Finite sx mx ex) (Infinity sy) = (\<not> sy)"
| "double_less_eq (Finite sx mx ex) (Finite sy my ey) =
     (let e0 = min ex ey in scaled sx mx ex e0 \<le> scaled sy my ey e0)"

definition double_greater :: "double \<Rightarrow> double \<Rightarrow> bool" where
  "double_greater x y = double_less y x"

text \<open>
  \<open>round_to_double s n e\<close> rounds the number of sign \<open>s\<close> and magnitude \<open>n \<sqdot> 2\<^sup>e\<close>, where
  \<open>-1074 \<le> e\<close>: a magnitude of at most 53 bits is kept as it is; of a longer one the
  leading 53 bits are kept and the rest, \<open>r\<close>, decides the direction by comparison with
  one half of the last kept place.
\<close>

function bit_length :: "nat \<Rightarrow> nat" where
  "bit_length n = (if n = 0 then 0 else Suc (bit_length (n div 2)))"
  by pat_completeness auto
termination
  by (relation "measure id") auto

declare bit_length.simps [simp del]

definition round_to_double :: "bool \<Rightarrow> nat \<Rightarrow> int \<Rightarrow> double" where
  "round_to_double s n e =
     (if n < 2 ^ 53 then Finite s n e
      else let k = bit_length n - 53;
               q = n div 2 ^ k;
               r = n mod 2 ^ k;
               half = 2 ^ (k - 1);
               m = (if r > half \<or> (r = half \<and> odd q) then q + 1 else q);
               m' = (if m = 2 ^ 53 then 2 ^ 52 else m);
               e' = (if m = 2 ^ 53 then e + int k + 1 else e + int k)
           in if e' > 971 then Infinity s else Finite s m' e')"

fun double_minus :: "double \<Rightarrow> double \<Rightarrow> double" where
  "double_minus NaN y = NaN"
| "double_minus x NaN = NaN"
| "double_minus (Infinity sx) (Infinity sy) = (if sx = sy then NaN else Infinity sx)"
| "double_minus (Infinity sx) (Finite sy my ey) = Infinity sx"
| "double_minus (Finite sx mx ex) (Infinity sy) = Infinity (\<not> sy)"
| "double_minus (Finite sx mx ex) (Finite sy my ey) =
     (let e0 = min ex ey;
          d = scaled sx mx ex e0 - scaled sy my ey e0
      in if d = 0 then Finite (sx \<and> \<not> sy) 0 e0
         else round_to_double (d < 0) (nat \<bar>d\<bar>) e0)"

text \<open>The literal \<^verbatim>\<open>0\<close> converted to \<^verbatim>\<open>double\<close>.\<close>

definition double_zero :: double where
  "double_zero = Finite False 0 0"

text \<open>
  The specification side: what it means for a balance to decrease by exactly an amount.
  All three numbers must be finite, and the number after must be the number before minus
  the amount, with no rounding; the three are compared as whole multiples of the smallest
  of their powers of two.
\<close>

definition decreases_by_exactly :: "double \<Rightarrow> double \<Rightarrow> double \<Rightarrow> bool" where
  "decreases_by_exactly before after amount =
     (case (before, after, amount) of
        (Finite sb mb eb, Finite sa ma ea, Finite sc mc ec) \<Rightarrow>
          (let e0 = min eb (min ea ec)
           in scaled sa ma ea e0 = scaled sb mb eb e0 - scaled sc mc ec e0)
      | _ \<Rightarrow> False)"

section \<open>Bank file: Account::withdraw\<close>

text \<open>
  \<^verbatim>\<open>
  class Transaction {
      string transactionId; double amount; string type; string date; string description;
      static int transactionCounter;
  public:
      Transaction(double amt, string t, string desc) : amount(amt), type(t), description(desc) {
          transactionCounter++;
          transactionId = "TXN" + to_string(transactionCounter);
          time_t now = time(0);
          char* dt = ctime(&now);
          date = string(dt);
          date.pop_back(); // Remove newline
      }
  };
  class Account {
  protected:
      string accountNumber; double balance; string accountType; string customerId;
      vector<Transaction> transactions;
  public:
      virtual void withdraw(double amount) {
          if (amount <= 0) { throw BankException("Withdrawal amount must be positive"); }
          if (amount > balance) { throw BankException("Insufficient funds"); }
          balance -= amount;
          addTransaction(amount, "WITHDRAW", "Cash withdrawal");
      }
      void addTransaction(double amount, string type, string description) {
          transactions.emplace_back(amount, type, description);
      }
  };
  \<close>
  The members \<^verbatim>\<open>amount\<close>, \<^verbatim>\<open>type\<close>, \<^verbatim>\<open>date\<close> and \<^verbatim>\<open>description\<close> of a
  transaction are written \<open>txn_amount\<close>, \<open>txn_type\<close>, \<open>txn_date\<close> and
  \<open>txn_description\<close>. The static counter is passed in and returned. The text that
  \<^verbatim>\<open>ctime\<close> produces for the current time is the parameter \<open>dt\<close>. A call ends in one
  of three ways: it returns, it throws, or it runs into undefined behaviour; in each case
  the model also gives the object and the counter as they are at that point.
\<close>

record Transaction =
  transactionId :: string
  txn_amount :: double
  txn_type :: string
  txn_date :: string
  txn_description :: string

record Account =
  accountNumber :: string
  balance :: double
  accountType :: string
  customerId :: string
  transactions :: "Transaction list"

definition to_string :: "int \<Rightarrow> string" where
  "to_string i = put_int [] i"

definition Transaction_ctor ::
  "double \<Rightarrow> string \<Rightarrow> string \<Rightarrow> int \<Rightarrow> string \<Rightarrow> undefined_behaviour + Transaction \<times> int" where
  "Transaction_ctor amt t desc transactionCounter dt =
     (if \<not> is_int (transactionCounter + 1) then Inl SignedOverflow
      else if dt = [] then Inl PopBackOnEmpty
      else let transactionCounter' = transactionCounter + 1
           in Inr (\<lparr>transactionId = ''TXN'' @ to_string transactionCounter',
                     txn_amount = amt, txn_type = t, txn_date = butlast dt,
                     txn_description = desc\<rparr>, transactionCounter'))"

definition addTransaction ::
  "Account \<Rightarrow> double \<Rightarrow> string \<Rightarrow> string \<Rightarrow> int \<Rightarrow> string \<Rightarrow> undefined_behaviour + Account \<times> int" where
  "addTransaction this amt t desc transactionCounter dt =
     (case Transaction_ctor amt t desc transactionCounter dt of
        Inl ub \<Rightarrow> Inl ub
      | Inr (txn, transactionCounter') \<Rightarrow>
          Inr (this\<lparr>transactions := transactions this @ [txn]\<rparr>, transactionCounter'))"

datatype outcome = Returned | Threw exception | Undefined undefined_behaviour

definition withdraw :: "Account \<Rightarrow> double \<Rightarrow> int \<Rightarrow> string \<Rightarrow> outcome \<times> Account \<times> int" where
  "withdraw this amt transactionCounter dt =
     (if double_less_eq amt double_zero
      then (Threw (BankException ''Withdrawal amount must be positive''), this, transactionCounter)
      else if double_greater amt (balance this)
      then (Threw (BankException ''Insufficient funds''), this, transactionCounter)
      else let this1 = this\<lparr>balance := double_minus (balance this) amt\<rparr>
           in case addTransaction this1 amt ''WITHDRAW'' ''Cash withdrawal'' transactionCounter dt of
                Inl ub \<Rightarrow> (Undefined ub, this1, transactionCounter)
              | Inr (this2, transactionCounter') \<Rightarrow> (Returned, this2, transactionCounter'))"

text \<open>
  Concrete values for the examples below. \<open>rich_account\<close> is an account opened with
  \<open>10\<^sup>2\<^sup>0 = 6103515625000000 \<sqdot> 2\<^sup>1\<^sup>4\<close>, and \<open>double_one\<close> is \<open>1 = 2\<^sup>5\<^sup>2 \<sqdot> 2\<^sup>-\<^sup>5\<^sup>2\<close>.
\<close>

definition example_clock :: string where
  "example_clock = ''Fri Oct 30 09:00:00 2026'' @ [CHR 0x0A]"

definition rich_account :: Account where
  "rich_account =
     \<lparr>accountNumber = ''ACC1'', balance = Finite False 6103515625000000 14,
      accountType = ''Basic'', customerId = ''CUST1'',
      transactions = [\<lparr>transactionId = ''TXN1'', txn_amount = Finite False 6103515625000000 14,
        txn_type = ''DEPOSIT'', txn_date = ''Fri Oct 30 08:59:00 2026'',
        txn_description = ''Initial deposit''\<rparr>]\<rparr>"

definition double_one :: double where
  "double_one = Finite False 4503599627370496 (- 52)"

definition small_account :: Account where
  "small_account =
     \<lparr>accountNumber = ''ACC2'', balance = Finite False 100 0,
      accountType = ''Basic'', customerId = ''CUST2'', transactions = []\<rparr>"

section \<open>Event scheduler file: the class Event\<close>

text \<open>
  \<^verbatim>\<open>
  class DateTime {
      int year, month, day, hour, minute;
      bool operator<(const DateTime& other) const {
          if (year != other.year) return year < other.year;
          if (month != other.month) return month < other.month;
          if (day != other.day) return day < other.day;
          if (hour != other.hour) return hour < other.hour;
          return minute < other.minute;
      }
      bool operator>=(const DateTime& other) const { return !(*this < other); }
  };
  class Event {
  protected:
      int eventId; string title; string description;
      DateTime startTime; DateTime endTime; int priority;
      static int eventCounter;
  public:
      Event(string t, string desc, DateTime start, DateTime end, int p = 5)
          : title(t), description(desc), startTime(start), endTime(end), priority(p) {
          eventCounter++;
          eventId = eventCounter;
          if (priority < 1 || priority > 10) throw EventException("Priority must be between 1 and 10");
          if (startTime >= endTime) throw EventException("Start time must be before end time");
      }
      void setTitle(string t) { title = t; }
      void setDescription(string desc) { description = desc; }
      void setStartTime(DateTime start) {
          if (start >= endTime) throw EventException("Start time must be before end time");
          startTime = start;
      }
      void setEndTime(DateTime end) {
          if (startTime >= end) throw EventException("End time must be after start time");
          endTime = end;
      }
      void setPriority(int p) {
          if (p < 1 || p > 10) throw EventException("Priority must be between 1 and 10");
          priority = p;
      }
  };
  \<close>
  The constructor takes the static counter and returns it updated, together with either
  the exception it throws or the new object. A setter returns the exception it throws,
  if any, and the object as it is after the call. The parameter \<^verbatim>\<open>end\<close> is written
  \<open>end_time\<close>. No other member function and no derived class of the file assigns
  \<^verbatim>\<open>startTime\<close> or \<^verbatim>\<open>endTime\<close>.
\<close>

record DateTime =
  year :: int
  month :: int
  day :: int
  hour :: int
  minute :: int

definition DateTime_less :: "DateTime \<Rightarrow> DateTime \<Rightarrow> bool" where
  "DateTime_less this other =
     (if year this \<noteq> year other then year this < year other
      else if month this \<noteq> month other then month this < month other
      else if day this \<noteq> day other then day this < day other
      else if hour this \<noteq> hour other then hour this < hour other
      else minute this < minute other)"

definition DateTime_greater_eq :: "DateTime \<Rightarrow> DateTime \<Rightarrow> bool" where
  "DateTime_greater_eq this other = (\<not> DateTime_less this other)"

record Event =
  eventId :: int
  title :: string
  description :: string
  startTime :: DateTime
  endTime :: DateTime
  priority :: int

definition Event_ctor ::
  "string \<Rightarrow> string \<Rightarrow> DateTime \<Rightarrow> DateTime \<Rightarrow> int \<Rightarrow> int \<Rightarrow> (exception + Event) \<times> int" where
  "Event_ctor t desc start end_time p eventCounter =
     (let eventCounter' = eventCounter + 1;
          this = \<lparr>eventId = eventCounter', title = t, description = desc,
                  startTime = start, endTime = end_time, priority = p\<rparr>
      in if priority this < 1 \<or> priority this > 10
         then (Inl (EventException ''Priority must be between 1 and 10''), eventCounter')
         else if DateTime_greater_eq (startTime this) (endTime this)
         then (Inl (EventException ''Start time must be before end time''), eventCounter')
         else (Inr this, eventCounter'))"

definition setTitle :: "Event \<Rightarrow> string \<Rightarrow> exception option \<times> Event" where
  "setTitle this t = (None, this\<lparr>title := t\<rparr>)"

definition setDescription :: "Event \<Rightarrow> string \<Rightarrow> exception option \<times> Event" where
  "setDescription this desc = (None, this\<lparr>description := desc\<rparr>)"

definition setStartTime :: "Event \<Rightarrow> DateTime \<Rightarrow> exception option \<times> Event" where
  "setStartTime this start =
     (if DateTime_greater_eq start (endTime this)
      then (Some (EventException ''Start time must be before end time''), this)
      else (None, this\<lparr>startTime := start\<rparr>))"

definition setEndTime :: "Event \<Rightarrow> DateTime \<Rightarrow> exception option \<times> Event" where
  "setEndTime this end_time =
     (if DateTime_greater_eq (startTime this) end_time
      then (Some (EventException ''End time must be after start time''), this)
      else (None, this\<lparr>endTime := end_time\<rparr>))"

definition setPriority :: "Event \<Rightarrow> int \<Rightarrow> exception option \<times> Event" where
  "setPriority this p =
     (if p < 1 \<or> p > 10
      then (Some (EventException ''Priority must be between 1 and 10''), this)
      else (None, this\<lparr>priority := p\<rparr>))"

inductive Event_object :: "Event \<Rightarrow> bool" where
  constructed: "Event_ctor t desc start end_time p eventCounter = (Inr this, eventCounter')
      \<Longrightarrow> Event_object this"
| after_setTitle: "Event_object this \<Longrightarrow> Event_object (snd (setTitle this t))"
| after_setDescription: "Event_object this \<Longrightarrow> Event_object (snd (setDescription this desc))"
| after_setStartTime: "Event_object this \<Longrightarrow> Event_object (snd (setStartTime this start))"
| after_setEndTime: "Event_object this \<Longrightarrow> Event_object (snd (setEndTime this end_time))"
| after_setPriority: "Event_object this \<Longrightarrow> Event_object (snd (setPriority this p))"

text \<open>Concrete values for the examples below.\<close>

definition example_start :: DateTime where
  "example_start = \<lparr>year = 2024, month = 1, day = 15, hour = 9, minute = 0\<rparr>"

definition example_finish :: DateTime where
  "example_finish = \<lparr>year = 2024, month = 1, day = 15, hour = 10, minute = 30\<rparr>"

definition example_event :: Event where
  "example_event = \<lparr>eventId = 1, title = ''Meeting'', description = ''Weekly'',
     startTime = example_start, endTime = example_finish, priority = 5\<rparr>"

section \<open>Results: symmetric tree\<close>

lemma isMirror_iff_mirror_image: "isMirror a b \<longleftrightarrow> mirror_image a = b"
proof (induction a b rule: isMirror.induct)
  case (4 lv ll lr rv rl rr)
  then show ?case by auto
qed simp_all

text \<open>
  Claim C3, as stated: for every binary tree, the empty tree included, \<open>isSymmetric\<close>
  returns true exactly when the tree is a mirror of itself. The empty tree is a mirror
  of itself, but the guard on the null root answers false.
\<close>

theorem isSymmetric_empty_tree_counterexample:
  "\<not> (isSymmetric Nullptr \<longleftrightarrow> mirror_of_itself Nullptr)"
  by (simp add: mirror_of_itself_def)

text \<open>
  Claim C3, amended: \<open>isSymmetric\<close> returns true exactly when the root is not null and
  the tree is a mirror of itself; on the null root it returns false.
\<close>

theorem isSymmetric_iff_nonempty_mirror:
  "isSymmetric root \<longleftrightarrow> root \<noteq> Nullptr \<and> mirror_of_itself root"
proof (cases root)
  case Nullptr
  then show ?thesis by simp
next
  case (TreeNode v l r)
  have "isMirror l r \<longleftrightarrow> mirror_image l = r"
    by (rule isMirror_iff_mirror_image)
  moreover have "mirror_image l = r \<longleftrightarrow> mirror_image r = l \<and> mirror_image l = r"
  proof -
    have inv: "mirror_image (mirror_image t) = t" for t
      by (induction t) simp_all
    show ?thesis using inv [of l] by auto
  qed
  ultimately show ?thesis using TreeNode by (auto simp: mirror_of_itself_def)
qed

section \<open>Results: subsequence test\<close>

lemma isSubsequence_loop_subseq:
  "0 \<le> i \<Longrightarrow> i \<le> j \<Longrightarrow> i \<le> int (length s) \<Longrightarrow> j \<le> int (length t)
   \<Longrightarrow> int (length t) \<le> INT_MAX
   \<Longrightarrow> \<exists>r. isSubsequence_loop s t i j = Inr r
          \<and> (r = int (length s) \<longleftrightarrow> subseq (drop (nat i) s) (drop (nat j) t))"
proof (induction s t i j rule: isSubsequence_loop.induct)
  case (1 s t i j)
  have j0: "0 \<le> j" using 1(3,4) by simp
  show ?case
  proof (cases "less_size_t i (length s) \<and> less_size_t j (length t)")
    case True
    then have lt: "nat i < length s" "nat j < length t"
      unfolding less_size_t_def by linarith+
    then have ds: "drop (nat i) s = s ! nat i # drop (Suc (nat i)) s"
      and dt: "drop (nat j) t = t ! nat j # drop (Suc (nat j)) t"
      by (simp_all add: Cons_nth_drop_Suc)
    have suc: "nat (i + 1) = Suc (nat i)" "nat (j + 1) = Suc (nat j)"
      using 1(3) j0 by simp_all
    have ok: "is_int (i + 1) \<and> is_int (j + 1)" "is_int (j + 1)"
      using True 1(3,4,7) j0 by (simp_all add: is_int_def less_size_t_def INT_MIN_def)
    show ?thesis
    proof (cases "s ! nat i = t ! nat j")
      case eq: True
      have step: "isSubsequence_loop s t i j = isSubsequence_loop s t (i + 1) (j + 1)"
        using True eq ok by (subst isSubsequence_loop.simps) simp
      have "\<exists>r. isSubsequence_loop s t (i + 1) (j + 1) = Inr r
          \<and> (r = int (length s) \<longleftrightarrow> subseq (drop (nat (i + 1)) s) (drop (nat (j + 1)) t))"
        using 1(1) [OF True eq ok(1)] True 1(3,4,7) by (simp add: less_size_t_def)
      then show ?thesis unfolding step suc using ds dt eq by simp
    next
      case neq: False
      have step: "isSubsequence_loop s t i j = isSubsequence_loop s t i (j + 1)"
        using True neq ok by (subst isSubsequence_loop.simps) simp
      have "\<exists>r. isSubsequence_loop s t i (j + 1) = Inr r
          \<and> (r = int (length s) \<longleftrightarrow> subseq (drop (nat i) s) (drop (nat (j + 1)) t))"
        using 1(2) [OF True neq ok(2)] True 1(3,4,5,7) by (simp add: less_size_t_def)
      then show ?thesis unfolding step suc using ds dt neq by simp
    qed
  next
    case False
    then have r: "isSubsequence_loop s t i j = Inr i"
      by (subst isSubsequence_loop.simps) auto
    show ?thesis
    proof (cases "i < int (length s)")
      case True
      with False 1(3,6) j0 have "j = int (length t)" by (simp add: less_size_t_def)
      then have "drop (nat j) t = []" by simp
      moreover from True 1(3) have "drop (nat i) s \<noteq> []" by simp
      ultimately show ?thesis using r True by simp
    next
      case False
      with 1(5) have "i = int (length s)" by simp
      then show ?thesis using r by simp
    qed
  qed
qed

lemma long_text_loop:
  "0 \<le> j \<Longrightarrow> j \<le> 2147483647 \<Longrightarrow> isSubsequence_loop ''b'' long_text 0 j = Inl SignedOverflow"
proof (induction "nat (2147483647 - j)" arbitrary: j)
  case 0
  then have j: "j = 2147483647" by simp
  have "long_text ! nat j = CHR ''a''"
    unfolding long_text_def j by (simp add: nth_append)
  moreover have "length long_text = 2147483649" by (simp add: long_text_def)
  ultimately show ?case
    unfolding j
    by (subst isSubsequence_loop.simps)
       (simp add: less_size_t_def is_int_def INT_MAX_def INT_MIN_def)
next
  case (Suc k)
  then have jlt: "j < 2147483647" by linarith
  have "nat j < 2147483648" using Suc.prems by linarith
  then have "long_text ! nat j = CHR ''a''"
    unfolding long_text_def by (simp add: nth_append)
  moreover have "length long_text = 2147483649" by (simp add: long_text_def)
  moreover have "isSubsequence_loop ''b'' long_text 0 (j + 1) = Inl SignedOverflow"
    using Suc.prems Suc.hyps(2) jlt by (intro Suc.hyps(1)) linarith+
  ultimately show ?case
    using Suc.prems jlt
    by (subst isSubsequence_loop.simps)
       (simp add: less_size_t_def is_int_def INT_MAX_def INT_MIN_def)
qed

text \<open>
  Claim C2, as stated: for every pair of strings, \<open>isSubsequence s t\<close> returns true
  exactly when \<open>s\<close> is a subsequence of \<open>t\<close>. With \<open>t\<close> made of \<open>2\<^sup>3\<^sup>1\<close> letters a and
  then one b, the string b is a subsequence of \<open>t\<close>, but the counter \<^verbatim>\<open>j\<close> is
  incremented past \<open>INT_MAX\<close> before the b is reached, so the call does not return true.
\<close>

theorem isSubsequence_long_text_counterexample:
  "formed_by_deleting ''b'' long_text \<and> isSubsequence ''b'' long_text = Inl SignedOverflow"
proof -
  have "subseq ''b'' long_text"
    unfolding long_text_def by (rule list_emb_append2) simp
  then have "formed_by_deleting ''b'' long_text"
    unfolding formed_by_deleting_def subseq_conv_nths [symmetric] .
  moreover have "isSubsequence ''b'' long_text = Inl SignedOverflow"
    using long_text_loop [of 0] by (simp add: isSubsequence_def)
  ultimately show ?thesis by simp
qed

text \<open>
  Claim C2, amended: for every pair of strings \<open>s\<close> and \<open>t\<close> where \<open>t\<close> has at most
  \<open>INT_MAX\<close> characters, \<open>isSubsequence s t\<close> returns, and returns true exactly when
  \<open>s\<close> can be formed from \<open>t\<close> by deleting some (possibly none) of its characters
  without disturbing the order of the others; in particular it returns true when \<open>s\<close>
  is empty.
\<close>

theorem isSubsequence_iff_formed_by_deleting:
  assumes "int (length t) \<le> INT_MAX"
  shows "isSubsequence s t = Inr (formed_by_deleting s t)
       \<and> isSubsequence s t = Inr (subseq s t)
       \<and> isSubsequence [] t = Inr True"
proof -
  have "isSubsequence s t = Inr (subseq s t)" for s
    using isSubsequence_loop_subseq [of 0 0 s t] assms
    by (auto simp: isSubsequence_def equal_size_t_def)
  then show ?thesis
    unfolding formed_by_deleting_def subseq_conv_nths [symmetric] by simp
qed

theorem isSubsequence_iff_formed_by_deleting_witness:
  "int (length ''ahbgdc'') \<le> INT_MAX
   \<and> isSubsequence ''abc'' ''ahbgdc'' = Inr (formed_by_deleting ''abc'' ''ahbgdc'')
   \<and> isSubsequence ''abc'' ''ahbgdc'' = Inr (subseq ''abc'' ''ahbgdc'')
   \<and> isSubsequence [] ''ahbgdc'' = Inr True"
proof -
  have h: "int (length ''ahbgdc'') \<le> INT_MAX" by (simp add: INT_MAX_def)
  show ?thesis using h isSubsequence_iff_formed_by_deleting [OF h, of "''abc''"] by blast
qed

section \<open>Results: merging sorted arrays\<close>

lemma merge_loop_done: "merge_loop xs ys i (- 1) e = Inr xs"
  by (subst merge_loop.simps) simp

lemma merge_loop_step:
  assumes "int (length xs) \<le> INT_MAX" "int (length ys) \<le> INT_MAX"
  shows "merge_loop xs ys (int a - 1) (int b) (int e) =
     (if (a \<noteq> 0 \<longrightarrow> a - 1 < length xs) \<and> b < length ys \<and> e < length xs
      then if a \<noteq> 0 \<and> xs ! (a - 1) > ys ! b
           then merge_loop (xs[e := xs ! (a - 1)]) ys (int (a - 1) - 1) (int b) (int e - 1)
           else merge_loop (xs[e := ys ! b]) ys (int a - 1) (int b - 1) (int e - 1)
      else Inl IndexOutOfRange)"
proof (cases a)
  case 0
  then show ?thesis
    using assms
    by (subst merge_loop.simps) (simp add: in_bounds_def is_int_def INT_MIN_def)
next
  case (Suc a')
  have i: "int a - 1 = int a'" using Suc by simp
  show ?thesis
    unfolding i using assms
    by (subst merge_loop.simps) (simp add: in_bounds_def Suc is_int_def INT_MIN_def)
qed

lemma merge_loop_left:
  assumes "Suc a + Suc b \<le> length xs" "Suc b \<le> length ys" "xs ! a > ys ! b"
    "int (length xs) \<le> INT_MAX" "int (length ys) \<le> INT_MAX"
  shows "merge_loop xs ys (int (Suc a) - 1) (int (Suc b) - 1) (int (Suc a + Suc b) - 1)
       = merge_loop (xs[Suc (a + b) := xs ! a]) ys (int a - 1) (int (Suc b) - 1) (int (a + Suc b) - 1)"
proof -
  have e: "int (Suc a + Suc b) - 1 = int (Suc (a + b))"
    and j: "int (Suc b) - 1 = int b" and e': "int (a + Suc b) - 1 = int (Suc (a + b)) - 1"
    by simp_all
  show ?thesis
    unfolding e j e' using assms(1-3) by (subst merge_loop_step [OF assms(4,5)]) simp
qed

lemma merge_loop_right:
  assumes "a + Suc b \<le> length xs" "Suc b \<le> length ys" "a = 0 \<or> \<not> xs ! (a - 1) > ys ! b"
    "int (length xs) \<le> INT_MAX" "int (length ys) \<le> INT_MAX"
  shows "merge_loop xs ys (int a - 1) (int (Suc b) - 1) (int (a + Suc b) - 1)
       = merge_loop (xs[a + b := ys ! b]) ys (int a - 1) (int b - 1) (int (a + b) - 1)"
proof -
  have j: "int (Suc b) - 1 = int b" and e': "int (a + Suc b) - 1 = int (a + b)"
    by simp_all
  show ?thesis
    unfolding j e' using assms(1-3) by (subst merge_loop_step [OF assms(4,5)]) auto
qed

lemma merge_loop_correct:
  assumes "a + b \<le> length xs" "b \<le> length ys"
    "sorted (take a xs)" "sorted (take b ys)" "sorted (drop (a + b) xs)"
    "\<forall>u \<in> set (take a xs) \<union> set (take b ys). \<forall>v \<in> set (drop (a + b) xs). u \<le> v"
    "int (length xs) \<le> INT_MAX" "int (length ys) \<le> INT_MAX"
  shows "\<exists>r. merge_loop xs ys (int a - 1) (int b - 1) (int (a + b) - 1) = Inr r
            \<and> length r = length xs \<and> sorted r
            \<and> mset r = mset (take a xs) + mset (take b ys) + mset (drop (a + b) xs)"
  using assms
proof (induction "a + b" arbitrary: a b xs rule: less_induct)
  case less
  show ?case
  proof (cases b)
    case 0
    have "sorted (take a xs @ drop a xs)"
      using less.prems 0 by (simp only: sorted_append) auto
    then show ?thesis using 0 by (simp add: merge_loop_done flip: mset_append)
  next
    case (Suc b')
    have b'ys: "b' < length ys" using less.prems Suc by simp
    have tb: "take b ys = take b' ys @ [ys ! b']"
      using b'ys Suc by (simp add: take_Suc_conv_app_nth)
    have yb_top: "u \<le> ys ! b'" if "u \<in> set (take b ys)" for u
      using less.prems(4) that unfolding tb by (auto simp: sorted_append)
    have e_lt: "a + b' < length xs" using less.prems Suc by simp
    show ?thesis
    proof (cases "a = 0 \<or> \<not> xs ! (a - 1) > ys ! b'")
      case True
      let ?xs = "xs[a + b' := ys ! b']"
      have step: "merge_loop xs ys (int a - 1) (int b - 1) (int (a + b) - 1)
                = merge_loop ?xs ys (int a - 1) (int b' - 1) (int (a + b') - 1)"
        unfolding Suc using less.prems True Suc by (intro merge_loop_right) auto
      have ta: "take a ?xs = take a xs" by simp
      have dr: "drop (a + b') ?xs = ys ! b' # drop (a + b) xs"
        using e_lt Suc by (simp add: drop_update_swap Cons_nth_drop_Suc [symmetric] flip: upd_conv_take_nth_drop)
          
      have xa_le: "u \<le> ys ! b'" if "u \<in> set (take a xs)" for u
      proof -
        from that have "a \<noteq> 0" by (cases a) auto
        then have le: "xs ! (a - 1) \<le> ys ! b'" using True by auto
        have "a - 1 < length xs" using e_lt \<open>a \<noteq> 0\<close> by simp
        then have "take a xs = take (a - 1) xs @ [xs ! (a - 1)]"
          using \<open>a \<noteq> 0\<close> take_Suc_conv_app_nth [of "a - 1" xs] by simp
        then have "u \<le> xs ! (a - 1)"
          using less.prems(3) that by (auto simp: sorted_append)
        then show ?thesis using le by simp
      qed
      have ybin: "ys ! b' \<in> set (take b ys)" unfolding tb by simp
      have IH: "\<exists>r. merge_loop ?xs ys (int a - 1) (int b' - 1) (int (a + b') - 1) = Inr r
            \<and> length r = length ?xs \<and> sorted r
            \<and> mset r = mset (take a ?xs) + mset (take b' ys) + mset (drop (a + b') ?xs)"
      proof (rule less.hyps)
        show "a + b' < a + b" using Suc by simp
        show "a + b' \<le> length ?xs" using e_lt by simp
        show "b' \<le> length ys" using b'ys by simp
        show "int (length ?xs) \<le> INT_MAX" using less.prems(7) by simp
        show "int (length ys) \<le> INT_MAX" by (rule less.prems(8))
        show "sorted (take a ?xs)" unfolding ta by (rule less.prems(3))
        show "sorted (take b' ys)" using less.prems(4) unfolding tb by (simp add: sorted_append)
        show "sorted (drop (a + b') ?xs)"
          unfolding dr using less.prems(5,6) ybin by auto
        show "\<forall>u\<in>set (take a ?xs) \<union> set (take b' ys). \<forall>v\<in>set (drop (a + b') ?xs). u \<le> v"
          unfolding ta dr using xa_le yb_top less.prems(6) unfolding tb by auto
      qed
      then show ?thesis unfolding step ta dr tb by auto
    next
      case False
      then obtain a' where a: "a = Suc a'" and gt: "xs ! a' > ys ! b'"
        by (cases a) auto
      let ?xs = "xs[Suc (a' + b') := xs ! a']"
      have step: "merge_loop xs ys (int a - 1) (int b - 1) (int (a + b) - 1)
                = merge_loop ?xs ys (int a' - 1) (int b - 1) (int (a' + b) - 1)"
        unfolding Suc a using less.prems gt Suc a by (intro merge_loop_left) auto
      have a'xs: "a' < length xs" using e_lt a by simp
      have ta: "take a xs = take a' xs @ [xs ! a']"
        using a'xs a by (simp add: take_Suc_conv_app_nth)
      have ta': "take a' ?xs = take a' xs" by simp
      have dr: "drop (a' + b) ?xs = xs ! a' # drop (a + b) xs"
        using e_lt Suc a by (simp add: Cons_nth_drop_Suc [symmetric] flip: upd_conv_take_nth_drop)
      have xain: "xs ! a' \<in> set (take a xs)" unfolding ta by simp
      have xa_top: "u \<le> xs ! a'" if "u \<in> set (take a' xs)" for u
        using less.prems(3) that unfolding ta by (auto simp: sorted_append)
      have yb_lt: "u \<le> xs ! a'" if "u \<in> set (take b ys)" for u
        using yb_top [OF that] gt by simp
      have IH: "\<exists>r. merge_loop ?xs ys (int a' - 1) (int b - 1) (int (a' + b) - 1) = Inr r
            \<and> length r = length ?xs \<and> sorted r
            \<and> mset r = mset (take a' ?xs) + mset (take b ys) + mset (drop (a' + b) ?xs)"
      proof (rule less.hyps)
        show "a' + b < a + b" using a by simp
        show "a' + b \<le> length ?xs" using e_lt a Suc by simp
        show "b \<le> length ys" by (rule less.prems(2))
        show "int (length ?xs) \<le> INT_MAX" using less.prems(7) by simp
        show "int (length ys) \<le> INT_MAX" by (rule less.prems(8))
        show "sorted (take a' ?xs)"
          unfolding ta' using less.prems(3) unfolding ta by (simp add: sorted_append)
        show "sorted (take b ys)" by (rule less.prems(4))
        show "sorted (drop (a' + b) ?xs)"
          unfolding dr using less.prems(5,6) xain by auto
        show "\<forall>u\<in>set (take a' ?xs) \<union> set (take b ys). \<forall>v\<in>set (drop (a' + b) ?xs). u \<le> v"
          unfolding ta' dr using xa_top yb_lt less.prems(6) unfolding ta by auto
      qed
      then show ?thesis unfolding step ta' dr ta by auto
    qed
  qed
qed

text \<open>
  Claim C1, as stated: for every call that meets the conditions on \<open>nums1\<close>, \<open>m\<close>,
  \<open>nums2\<close> and \<open>n\<close>, the merged result is in \<open>nums1\<close> afterwards. With
  \<open>m = 2\<^sup>3\<^sup>0 + 1\<close> and \<open>n = 2\<^sup>3\<^sup>0\<close>, both of them values of \<^verbatim>\<open>int\<close>, and vectors of
  zeros of the lengths \<open>m + n\<close> and \<open>n\<close>, every condition holds, but \<^verbatim>\<open>m+n-1\<close> leaves
  the range of \<^verbatim>\<open>int\<close>.
\<close>

theorem merge_int_range_counterexample:
  "0 \<le> (1073741825::int)
   \<and> int (length (replicate 2147483649 (0::int))) = 1073741825 + 1073741824
   \<and> int (length (replicate 1073741824 (0::int))) = 1073741824
   \<and> sorted (take (nat 1073741825) (replicate 2147483649 0))
   \<and> sorted (replicate 1073741824 0)
   \<and> merge (replicate 2147483649 0) 1073741825 (replicate 1073741824 0) 1073741824
       = Inl SignedOverflow"
  by (simp add: merge_def is_int_def INT_MAX_def INT_MIN_def)

text \<open>
  Claim C1, amended: when moreover \<open>m + n \<le> INT_MAX\<close>, the call returns normally and
  afterwards \<open>nums1\<close>, still of length \<open>m + n\<close>, holds exactly the multiset of its
  first \<open>m\<close> elements and the \<open>n\<close> elements of \<open>nums2\<close>, in non-decreasing order.
\<close>

theorem merge_sorted_in_place:
  assumes "0 \<le> m" "int (length nums1) = m + n" "int (length nums2) = n"
    "sorted (take (nat m) nums1)" "sorted nums2" "m + n \<le> INT_MAX"
  shows "\<exists>r. merge nums1 m nums2 n = Inr r \<and> length r = length nums1 \<and> sorted r
            \<and> mset r = mset (take (nat m) nums1) + mset nums2"
proof -
  have n: "n = int (length nums2)" and m: "m = int (nat m)" using assms by simp_all
  have len: "nat m + length nums2 = length nums1" using assms by linarith
  have n0: "0 \<le> n" using assms(3) by linarith
  have b1: "int (length nums1) \<le> INT_MAX" using assms by simp
  have b2: "int (length nums2) \<le> INT_MAX" using assms by linarith
  have "\<exists>r. merge_loop nums1 nums2 (int (nat m) - 1) (int (length nums2) - 1)
               (int (nat m + length nums2) - 1) = Inr r
            \<and> length r = length nums1 \<and> sorted r
            \<and> mset r = mset (take (nat m) nums1) + mset (take (length nums2) nums2)
                     + mset (drop (nat m + length nums2) nums1)"
    using assms len b1 b2 by (intro merge_loop_correct) simp_all
  moreover have "is_int (m - 1) \<and> is_int (n - 1) \<and> is_int (m + n) \<and> is_int (m + n - 1)"
    using assms(1,6) n0 by (simp add: is_int_def INT_MIN_def INT_MAX_def)
  then have "merge nums1 m nums2 n = merge_loop nums1 nums2 (int (nat m) - 1)
      (int (length nums2) - 1) (int (nat m + length nums2) - 1)"
    unfolding merge_def using assms by simp
  ultimately show ?thesis using len by simp
qed

theorem merge_sorted_in_place_witness:
  "0 \<le> (3::int) \<and> int (length [1, 2, 3, 0, 0, 0 :: int]) = 3 + 3
   \<and> int (length [2, 5, 6 :: int]) = 3
   \<and> sorted (take (nat 3) [1, 2, 3, 0, 0, 0 :: int]) \<and> sorted [2, 5, 6 :: int]
   \<and> (3::int) + 3 \<le> INT_MAX
   \<and> (\<exists>r. merge [1, 2, 3, 0, 0, 0] 3 [2, 5, 6] 3 = Inr r
          \<and> length r = length [1, 2, 3, 0, 0, 0 :: int] \<and> sorted r
          \<and> mset r = mset (take (nat 3) [1, 2, 3, 0, 0, 0]) + mset [2, 5, 6])"
proof -
  have h1: "0 \<le> (3::int)" by simp
  have h2: "int (length [1, 2, 3, 0, 0, 0 :: int]) = 3 + 3" by simp
  have h3: "int (length [2, 5, 6 :: int]) = 3" by simp
  have h4: "sorted (take (nat 3) [1, 2, 3, 0, 0, 0 :: int])" by simp
  have h5: "sorted [2, 5, 6 :: int]" by simp
  have h6: "(3::int) + 3 \<le> INT_MAX" by (simp add: INT_MAX_def)
  show ?thesis
    using h1 h2 h3 h4 h5 h6 merge_sorted_in_place [OF h1 h2 h3 h4 h5 h6] by blast
qed

section \<open>Results: divisibility by digit sum and product\<close>

lemma smod_10_nat: "int t smod 10 = int (t mod 10)"
  by (simp add: signed_modulo_int_def sgn_if zmod_int)

lemma sdiv_10_nat: "int t sdiv 10 = int (t div 10)"
  by (simp add: signed_divide_int_def sgn_if zdiv_int)

lemma digit_times_rest_le: "(t mod 10) * (t div 10) \<le> (t::nat)"
proof -
  have "(t mod 10) * (t div 10) \<le> 10 * (t div 10)"
    by (rule mult_right_mono) simp_all
  also have "\<dots> \<le> t" by simp
  finally show ?thesis .
qed

lemma digit_plus_rest_le: "t mod 10 + t div 10 \<le> (t::nat)"
proof -
  have "10 * (t div 10) + t mod 10 = t" by simp
  moreover have "t div 10 \<le> 10 * (t div 10)" by simp
  ultimately show ?thesis by linarith
qed

lemma sum_of_digits_unfold: "t \<noteq> 0 \<Longrightarrow> sum_of_digits t = t mod 10 + sum_of_digits (t div 10)"
  by (subst sum_of_digits.simps) simp

lemma product_of_digits_unfold:
  "t \<noteq> 0 \<Longrightarrow> product_of_digits t = (t mod 10) * product_of_digits (t div 10)"
  by (subst product_of_digits.simps) simp

lemma digit_loop_digits:
  assumes "0 \<le> s" "0 \<le> p" "s + int t \<le> INT_MAX" "p \<le> INT_MAX" "p * int t \<le> INT_MAX"
  shows "digit_loop (int t) s p = Inr (s + int (sum_of_digits t), p * int (product_of_digits t))"
  using assms
proof (induction t arbitrary: s p rule: less_induct)
  case (less t)
  show ?case
  proof (cases "t = 0")
    case True
    then show ?thesis
      by (subst digit_loop.simps) (simp add: sum_of_digits.simps product_of_digits.simps)
  next
    case False
    let ?r = "int (t mod 10)"
    have min: "INT_MIN \<le> 0" by (simp add: INT_MIN_def)
    have r_le: "?r \<le> int t" by simp
    have s': "0 \<le> s + ?r" "s + ?r \<le> INT_MAX" using less.prems r_le by linarith+
    have "p * ?r \<le> p * int t" using less.prems(2) r_le by (rule mult_left_mono [OF _ _, rotated]) 
    then have p': "0 \<le> p * ?r" "p * ?r \<le> INT_MAX" using less.prems by simp_all
    have ok: "is_int (s + ?r) \<and> is_int (p * ?r)"
      using s' p' min by (simp add: is_int_def)
    have step: "digit_loop (int t) s p = digit_loop (int (t div 10)) (s + ?r) (p * ?r)"
      using False ok by (subst digit_loop.simps) (simp add: smod_10_nat sdiv_10_nat Let_def)
    have "?r + int (t div 10) \<le> int t"
      using digit_plus_rest_le [of t] by linarith
    then have a3: "s + ?r + int (t div 10) \<le> INT_MAX" using less.prems(3) by linarith
    have "p * ?r * int (t div 10) = p * int ((t mod 10) * (t div 10))" by simp
    also have "\<dots> \<le> p * int t"
    proof -
      have "int ((t mod 10) * (t div 10)) \<le> int t"
        by (simp only: of_nat_le_iff digit_times_rest_le)
      then show ?thesis using less.prems(2) by (rule mult_left_mono)
    qed
    finally have a5: "p * ?r * int (t div 10) \<le> INT_MAX" using less.prems(5) by simp
    have "digit_loop (int (t div 10)) (s + ?r) (p * ?r)
        = Inr (s + ?r + int (sum_of_digits (t div 10)), p * ?r * int (product_of_digits (t div 10)))"
      using False s'(1) p' a3 a5 by (intro less.IH) simp_all
    moreover have "sum_of_digits t = t mod 10 + sum_of_digits (t div 10)"
      using False by (subst sum_of_digits.simps) simp
    moreover have "product_of_digits t = (t mod 10) * product_of_digits (t div 10)"
      using False by (subst product_of_digits.simps) simp
    ultimately show ?thesis unfolding step by simp
  qed
qed

lemma sum_of_digits_pos: "0 < t \<Longrightarrow> 0 < sum_of_digits t"
proof (induction t rule: less_induct)
  case (less t)
  have u: "sum_of_digits t = t mod 10 + sum_of_digits (t div 10)"
    using less.prems by (subst sum_of_digits.simps) simp
  show ?case
  proof (cases "t mod 10 = 0")
    case True
    have "10 * (t div 10) + t mod 10 = t" by simp
    with True less.prems have "0 < t div 10" by (cases "t div 10 = 0") simp_all
    moreover have "t div 10 < t" using less.prems by simp
    ultimately have "0 < sum_of_digits (t div 10)" by (intro less.IH)
    then show ?thesis using u by simp
  next
    case False
    then show ?thesis using u by simp
  qed
qed

lemma sum_of_digits_le: "sum_of_digits t \<le> t"
proof (induction t rule: less_induct)
  case (less t)
  show ?case
  proof (cases "t = 0")
    case True
    then show ?thesis by (simp add: sum_of_digits.simps)
  next
    case False
    then have "sum_of_digits (t div 10) \<le> t div 10" by (intro less.IH) simp
    moreover have "sum_of_digits t = t mod 10 + sum_of_digits (t div 10)"
      using False by (subst sum_of_digits.simps) simp
    ultimately show ?thesis using digit_plus_rest_le [of t] by linarith
  qed
qed

lemma product_of_digits_le: "0 < t \<Longrightarrow> product_of_digits t \<le> t"
proof (induction t rule: less_induct)
  case (less t)
  have u: "product_of_digits t = (t mod 10) * product_of_digits (t div 10)"
    using less.prems by (subst product_of_digits.simps) simp
  show ?case
  proof (cases "t div 10 = 0")
    case True
    then show ?thesis using u by (simp add: product_of_digits.simps)
  next
    case False
    then have "product_of_digits (t div 10) \<le> t div 10" by (intro less.IH) simp_all
    then have "product_of_digits t \<le> (t mod 10) * (t div 10)"
      unfolding u by (rule mult_left_mono) simp
    then show ?thesis using digit_times_rest_le [of t] by linarith
  qed
qed

lemma digits_total_bound:
  assumes "t \<le> 2147483647"
  shows "sum_of_digits t + product_of_digits t \<le> 2147483647"
proof (cases "t < 100")
  case True
  have "sum_of_digits t \<le> t" by (rule sum_of_digits_le)
  moreover have "product_of_digits t \<le> max 1 t"
    using product_of_digits_le [of t] by (cases "t = 0") (simp_all add: product_of_digits.simps)
  ultimately show ?thesis using True by simp
next
  case False
  let ?h = "t div 100"
  have h: "0 < ?h" "t div 10 div 10 = ?h" "t \<noteq> 0" "t div 10 \<noteq> 0" using False by simp_all
  have s: "sum_of_digits t = t mod 10 + (t div 10 mod 10 + sum_of_digits ?h)"
    using h sum_of_digits_unfold [of t] sum_of_digits_unfold [of "t div 10"] by simp
  have p: "product_of_digits t = (t mod 10) * ((t div 10 mod 10) * product_of_digits ?h)"
    using h product_of_digits_unfold [of t] product_of_digits_unfold [of "t div 10"] by simp
  have d: "t mod 10 \<le> 9" "t div 10 mod 10 \<le> 9" by simp_all
  have "sum_of_digits ?h \<le> ?h" by (rule sum_of_digits_le)
  then have sb: "sum_of_digits t \<le> 18 + ?h" unfolding s using d by linarith
  have ph: "product_of_digits ?h \<le> ?h" using h by (intro product_of_digits_le)
  have q: "(t div 10 mod 10) * product_of_digits ?h \<le> 9 * ?h"
    by (rule mult_mono [OF d(2) ph]) simp_all
  have "(t mod 10) * ((t div 10 mod 10) * product_of_digits ?h) \<le> 9 * (9 * ?h)"
    by (rule mult_mono [OF d(1) q]) simp_all
  then have pb: "product_of_digits t \<le> 81 * ?h" unfolding p by simp
  have "?h \<le> 21474836" using assms by simp
  then show ?thesis using sb pb by linarith
qed

lemma digit_loop_result:
  assumes "1 \<le> n" "n \<le> INT_MAX"
  shows "digit_loop n 0 1 = Inr (int (sum_of_digits (nat n)), int (product_of_digits (nat n)))"
proof -
  have "digit_loop (int (nat n)) 0 1
      = Inr (0 + int (sum_of_digits (nat n)), 1 * int (product_of_digits (nat n)))"
    using assms by (intro digit_loop_digits) simp_all
  then show ?thesis using assms by simp
qed

text \<open>
  What the function computes on a positive \<^verbatim>\<open>int\<close>: whether the sum of the digit sum
  and the digit product divides \<open>n\<close>.
\<close>

lemma checkDivisibility_result:
  assumes "1 \<le> n" "n \<le> INT_MAX"
  shows "checkDivisibility n
       = Inr (n mod (int (sum_of_digits (nat n)) + int (product_of_digits (nat n))) = 0)"
proof -
  let ?s = "int (sum_of_digits (nat n))" and ?p = "int (product_of_digits (nat n))"
  have t: "0 < nat n" "nat n \<le> 2147483647" using assms by (simp_all add: INT_MAX_def)
  have s1: "1 \<le> ?s" using sum_of_digits_pos [OF t(1)] by simp
  have "sum_of_digits (nat n) + product_of_digits (nat n) \<le> 2147483647"
    using t(2) by (rule digits_total_bound)
  then have "?s + ?p \<le> 2147483647" by linarith
  then have ok: "is_int (?s + ?p)" using s1 by (simp add: is_int_def INT_MAX_def INT_MIN_def)
  have res: "0 < ?s + ?p" using s1 by linarith
  have "n smod (?s + ?p) = n mod (?s + ?p)"
    using res assms(1) by (simp add: signed_modulo_int_def sgn_if)
  then show ?thesis
    using digit_loop_result [OF assms] ok res unfolding checkDivisibility_def
    by (auto simp: Let_def)
qed

text \<open>
  Claim C4 says that \<open>checkDivisibility n\<close> is true when \<open>n\<close> is divisible by the sum
  of its digits or by the product of its digits. The function tests divisibility by the
  sum of the two numbers instead. On 12, the example of the file's own problem statement
  (digit sum 3, digit product 2, expected answer true because 3 divides 12), it divides
  by 5 and returns false.
\<close>

theorem checkDivisibility_12_false:
  "checkDivisibility 12 = Inr False
   \<and> sum_of_digits 12 = 3 \<and> product_of_digits 12 = 2 \<and> (12::nat) mod sum_of_digits 12 = 0"
proof -
  have "checkDivisibility 12 = Inr False"
    by (simp add: checkDivisibility_def digit_loop.simps is_int_def INT_MAX_def INT_MIN_def
        signed_divide_int_def signed_modulo_int_def)
  moreover have "sum_of_digits 12 = 3" by (simp add: sum_of_digits.simps)
  moreover have "product_of_digits 12 = 2" by (simp add: product_of_digits.simps)
  ultimately show ?thesis by simp
qed

text \<open>
  Claim C9: for every \<open>n \<ge> 1\<close> in the range of \<^verbatim>\<open>int\<close>, the loop ends without
  overflow with \<open>digitSum \<ge> 1\<close> and \<open>digitProduct \<ge> 0\<close>, so the divisor
  \<open>digitSum + digitProduct\<close> is at least 1 and itself in range; the remainder never
  divides by zero and the function returns a result, namely whether the divisor divides
  \<open>n\<close>.
\<close>

theorem checkDivisibility_divisor_positive:
  assumes "1 \<le> n" "n \<le> INT_MAX"
  shows "\<exists>digitSum digitProduct.
           digit_loop n 0 1 = Inr (digitSum, digitProduct)
         \<and> 1 \<le> digitSum \<and> 0 \<le> digitProduct \<and> 1 \<le> digitSum + digitProduct
         \<and> is_int (digitSum + digitProduct)
         \<and> checkDivisibility n = Inr (n mod (digitSum + digitProduct) = 0)"
proof -
  let ?s = "int (sum_of_digits (nat n))" and ?p = "int (product_of_digits (nat n))"
  have t: "0 < nat n" "nat n \<le> 2147483647" using assms by (simp_all add: INT_MAX_def)
  have s1: "1 \<le> ?s" using sum_of_digits_pos [OF t(1)] by simp
  have p0: "0 \<le> ?p" by simp
  have "sum_of_digits (nat n) + product_of_digits (nat n) \<le> 2147483647"
    using t(2) by (rule digits_total_bound)
  then have "?s + ?p \<le> 2147483647" by linarith
  then have ok: "is_int (?s + ?p)" using s1 by (simp add: is_int_def INT_MAX_def INT_MIN_def)
  have pos: "1 \<le> ?s + ?p" using s1 p0 by linarith
  show ?thesis
    using digit_loop_result [OF assms] checkDivisibility_result [OF assms] s1 p0 pos ok
    by blast
qed

theorem checkDivisibility_divisor_positive_witness:
  "1 \<le> (99::int) \<and> 99 \<le> INT_MAX
   \<and> (\<exists>digitSum digitProduct.
           digit_loop 99 0 1 = Inr (digitSum, digitProduct)
         \<and> 1 \<le> digitSum \<and> 0 \<le> digitProduct \<and> 1 \<le> digitSum + digitProduct
         \<and> is_int (digitSum + digitProduct)
         \<and> checkDivisibility 99 = Inr (99 mod (digitSum + digitProduct) = 0))"
proof -
  have h1: "1 \<le> (99::int)" by simp
  have h2: "99 \<le> INT_MAX" by (simp add: INT_MAX_def)
  show ?thesis
    using h1 h2 checkDivisibility_divisor_positive [OF h1 h2] by blast
qed

section \<open>Results: dry-run problems of the bank file\<close>

text \<open>
  Claim C5: with \<open>b1\<close> holding 1000 and \<open>b2\<close> holding 2000, printing \<open>b1 + b2\<close> writes
  exactly \<open>Bank($3100)\<close>.
\<close>

theorem bank_operator_plus_output: "problem3_main = ''Bank($3100)''"
  by (simp add: problem3_main_def Bank_plus_def Bank_put_def put_str_def put_int_def)

text \<open>
  Claim C6: creating a \<open>Derived(10, 20)\<close> and deleting it through a pointer to \<open>Base\<close>
  writes exactly \<open>Base(10)Derived(20)~Derived(20)~Base(10)\<close>: the base constructor runs
  before the derived one, and the destructors run in the opposite order.
\<close>

theorem lifecycle_output: "problem1_main = ''Base(10)Derived(20)~Derived(20)~Base(10)''"
  by (simp add: problem1_main_def Derived_ctor_def Base_ctor_def delete_Base_ptr_def
      Derived_dtor_def Base_dtor_def put_str_def put_int_def)
section \<open>Results: Account::withdraw\<close>

lemma withdraw_rich_account:
  "withdraw rich_account double_one 1 example_clock =
     (Returned,
      rich_account\<lparr>transactions := transactions rich_account @
        [\<lparr>transactionId = ''TXN2'', txn_amount = double_one, txn_type = ''WITHDRAW'',
          txn_date = ''Fri Oct 30 09:00:00 2026'', txn_description = ''Cash withdrawal''\<rparr>]\<rparr>,
      2)"
  by (simp add: withdraw_def rich_account_def double_one_def double_zero_def
      double_greater_def scaled_def round_to_double_def bit_length.simps Let_def
      addTransaction_def Transaction_ctor_def to_string_def put_int_def
      is_int_def INT_MAX_def INT_MIN_def example_clock_def)

text \<open>
  Claim C8, as stated: when \<open>withdraw\<close> returns normally, the balance has decreased by
  exactly the amount. Withdrawing 1 from an account that holds \<open>10\<^sup>2\<^sup>0\<close> passes both
  guards and returns, with one transaction appended, but the difference \<open>10\<^sup>2\<^sup>0 - 1\<close> is
  not a \<^verbatim>\<open>double\<close> and rounds back to \<open>10\<^sup>2\<^sup>0\<close>: the balance is what it was.
\<close>

theorem withdraw_rounding_counterexample:
  "fst (withdraw rich_account double_one 1 example_clock) = Returned
   \<and> double_greater double_one double_zero
   \<and> balance (fst (snd (withdraw rich_account double_one 1 example_clock)))
       = balance rich_account
   \<and> \<not> decreases_by_exactly (balance rich_account)
         (balance (fst (snd (withdraw rich_account double_one 1 example_clock)))) double_one"
proof -
  have "double_greater double_one double_zero"
    by (simp add: double_greater_def double_one_def double_zero_def scaled_def)
  moreover have "\<not> decreases_by_exactly (balance rich_account) (balance rich_account) double_one"
    by (simp add: decreases_by_exactly_def rich_account_def double_one_def scaled_def)
  ultimately show ?thesis
    by (simp add: withdraw_rich_account)
qed

text \<open>
  Claim C8, amended: \<open>withdraw\<close> throws a \<open>BankException\<close> if and only if
  \<^verbatim>\<open>amount <= 0\<close> or \<^verbatim>\<open>amount > balance\<close>; when it throws, the account (balance and
  transaction history included) and the transaction counter are unchanged; when it
  returns normally, the balance is the \<^verbatim>\<open>double\<close> difference of the old balance and
  the amount (the exact difference rounded to the nearest \<^verbatim>\<open>double\<close>), exactly one
  transaction, of type WITHDRAW and of that amount, is appended to the history, and
  nothing else of the account changes. When neither guard holds, the counter is below
  \<open>INT_MAX\<close> and the clock text is not empty, the call returns normally.
\<close>

theorem withdraw_throws_or_updates:
  assumes "withdraw this amt transactionCounter dt = (out, this', transactionCounter')"
  shows "((\<exists>msg. out = Threw (BankException msg))
            \<longleftrightarrow> double_less_eq amt double_zero \<or> double_greater amt (balance this))
       \<and> (\<forall>e. out = Threw e \<longrightarrow> this' = this \<and> transactionCounter' = transactionCounter)
       \<and> (out = Returned \<longrightarrow>
            (\<exists>txn. this' = this\<lparr>balance := double_minus (balance this) amt,
                                 transactions := transactions this @ [txn]\<rparr>
                 \<and> txn_type txn = ''WITHDRAW'' \<and> txn_amount txn = amt))
       \<and> (\<not> double_less_eq amt double_zero \<and> \<not> double_greater amt (balance this)
            \<and> is_int (transactionCounter + 1) \<and> dt \<noteq> [] \<longrightarrow> out = Returned)"
proof -
  consider (nonpositive) "double_less_eq amt double_zero"
    | (insufficient) "\<not> double_less_eq amt double_zero" "double_greater amt (balance this)"
    | (passes) "\<not> double_less_eq amt double_zero" "\<not> double_greater amt (balance this)"
    by blast
  then show ?thesis
  proof cases
    case nonpositive
    then have "withdraw this amt transactionCounter dt
        = (Threw (BankException ''Withdrawal amount must be positive''), this, transactionCounter)"
      by (simp add: withdraw_def)
    with assms nonpositive show ?thesis by auto
  next
    case insufficient
    then have "withdraw this amt transactionCounter dt
        = (Threw (BankException ''Insufficient funds''), this, transactionCounter)"
      by (simp add: withdraw_def)
    with assms insufficient show ?thesis by auto
  next
    case passes
    show ?thesis
    proof (cases "is_int (transactionCounter + 1) \<and> dt \<noteq> []")
      case True
      then have "withdraw this amt transactionCounter dt
          = (Returned,
             this\<lparr>balance := double_minus (balance this) amt,
                  transactions := transactions this @
                    [\<lparr>transactionId = ''TXN'' @ to_string (transactionCounter + 1),
                      txn_amount = amt, txn_type = ''WITHDRAW'', txn_date = butlast dt,
                      txn_description = ''Cash withdrawal''\<rparr>]\<rparr>,
             transactionCounter + 1)"
        using passes
        by (simp add: withdraw_def addTransaction_def Transaction_ctor_def Let_def)
      with assms passes show ?thesis by auto
    next
      case False
      then have "\<exists>ub. withdraw this amt transactionCounter dt
          = (Undefined ub, this\<lparr>balance := double_minus (balance this) amt\<rparr>,
             transactionCounter)"
        using passes
        by (auto simp: withdraw_def addTransaction_def Transaction_ctor_def Let_def)
      with assms passes False show ?thesis by auto
    qed
  qed
qed

theorem withdraw_throws_or_updates_witness:
  "fst (withdraw small_account (Finite False 30 0) 0 example_clock) = Returned
   \<and> balance (fst (snd (withdraw small_account (Finite False 30 0) 0 example_clock)))
       = Finite False 70 0
   \<and> length (transactions (fst (snd (withdraw small_account (Finite False 30 0) 0 example_clock))))
       = 1
   \<and> double_less_eq double_zero double_zero
   \<and> fst (withdraw small_account double_zero 0 example_clock)
       = Threw (BankException ''Withdrawal amount must be positive'')
   \<and> fst (snd (withdraw small_account double_zero 0 example_clock)) = small_account"
proof -
  let ?w = "withdraw small_account (Finite False 30 0) 0 example_clock"
  let ?v = "withdraw small_account double_zero 0 example_clock"
  have sub: "double_minus (balance small_account) (Finite False 30 0) = Finite False 70 0"
    by (simp add: small_account_def scaled_def round_to_double_def)
  have guards: "\<not> double_less_eq (Finite False 30 0) double_zero"
      "\<not> double_greater (Finite False 30 0) (balance small_account)"
      "is_int (0 + 1)" "example_clock \<noteq> []"
    by (simp_all add: double_zero_def double_greater_def small_account_def scaled_def
        is_int_def INT_MAX_def INT_MIN_def example_clock_def)
  have zero: "double_less_eq double_zero double_zero"
    by (simp add: double_zero_def scaled_def)
  have w: "?w = (fst ?w, fst (snd ?w), snd (snd ?w))" by simp
  have v: "?v = (fst ?v, fst (snd ?v), snd (snd ?v))" by simp
  have r: "fst ?w = Returned"
    using withdraw_throws_or_updates [OF w] guards by blast
  then obtain txn where "fst (snd ?w) = small_account\<lparr>balance :=
      double_minus (balance small_account) (Finite False 30 0),
      transactions := transactions small_account @ [txn]\<rparr>"
    using withdraw_throws_or_updates [OF w] by blast
  then have after: "balance (fst (snd ?w)) = Finite False 70 0"
      "length (transactions (fst (snd ?w))) = 1"
    using sub by (simp_all add: small_account_def)
  obtain msg where t: "fst ?v = Threw (BankException msg)"
    using withdraw_throws_or_updates [OF v] zero by blast
  then have same: "fst (snd ?v) = small_account"
    using withdraw_throws_or_updates [OF v] by blast
  have "fst ?v = Threw (BankException ''Withdrawal amount must be positive'')"
    using zero by (simp add: withdraw_def)
  then show ?thesis using r after zero same by simp
qed

section \<open>Results: the ordering invariant of Event\<close>

lemma Event_object_ordered:
  "Event_object this \<Longrightarrow> DateTime_less (startTime this) (endTime this)"
proof (induction rule: Event_object.induct)
  case (constructed t desc start end_time p eventCounter this eventCounter')
  then show ?case
    by (auto simp: Event_ctor_def Let_def DateTime_greater_eq_def split: if_splits)
next
  case (after_setStartTime this start)
  then show ?case by (simp add: setStartTime_def DateTime_greater_eq_def)
next
  case (after_setEndTime this end_time)
  then show ?case by (simp add: setEndTime_def DateTime_greater_eq_def)
qed (simp_all add: setTitle_def setDescription_def setPriority_def)

text \<open>
  Claim C10: every \<open>Event\<close> object, that is, every object returned by the constructor
  and every object a setter leaves behind, has its start time before its end time. The
  constructor throws an \<open>EventException\<close> when the given start time is not before the
  end time; \<open>setStartTime\<close> and \<open>setEndTime\<close> throw an \<open>EventException\<close> and leave
  the event as it was when the new value is not in order.
\<close>

theorem Event_start_before_end:
  "(Event_object this \<longrightarrow> DateTime_less (startTime this) (endTime this))
 \<and> (\<not> DateTime_less start end_time \<longrightarrow>
       (\<exists>msg. fst (Event_ctor t desc start end_time p eventCounter) = Inl (EventException msg)))
 \<and> (\<not> DateTime_less start (endTime this) \<longrightarrow>
       (\<exists>msg. setStartTime this start = (Some (EventException msg), this)))
 \<and> (\<not> DateTime_less (startTime this) end_time \<longrightarrow>
       (\<exists>msg. setEndTime this end_time = (Some (EventException msg), this)))"
  by (auto simp: Event_object_ordered Event_ctor_def Let_def setStartTime_def setEndTime_def
      DateTime_greater_eq_def)

theorem Event_start_before_end_witness:
  "Event_object example_event
   \<and> DateTime_less (startTime example_event) (endTime example_event)
   \<and> \<not> DateTime_less example_finish example_start
   \<and> (\<exists>msg. fst (Event_ctor ''Meeting'' ''Weekly'' example_finish example_start 5 0)
          = Inl (EventException msg))
   \<and> \<not> DateTime_less example_finish (endTime example_event)
   \<and> (\<exists>msg. setStartTime example_event example_finish
          = (Some (EventException msg), example_event))
   \<and> \<not> DateTime_less (startTime example_event) example_start
   \<and> (\<exists>msg. setEndTime example_event example_start
          = (Some (EventException msg), example_event))"
proof -
  have obj: "Event_object example_event"
    by (rule constructed [of "''Meeting''" "''Weekly''" example_start example_finish 5 0 _ 1])
      (simp add: Event_ctor_def example_event_def example_start_def example_finish_def
        DateTime_greater_eq_def DateTime_less_def)
  have h2: "\<not> DateTime_less example_finish example_start"
    by (simp add: example_start_def example_finish_def DateTime_less_def)
  have h3: "\<not> DateTime_less example_finish (endTime example_event)"
    by (simp add: example_event_def example_finish_def DateTime_less_def)
  have h4: "\<not> DateTime_less (startTime example_event) example_start"
    by (simp add: example_event_def example_start_def DateTime_less_def)
  show ?thesis
    using obj h2 h3 h4
      Event_start_before_end [where this = example_event and start = example_finish
        and end_time = example_start and t = "''Meeting''" and desc = "''Weekly''"
        and p = 5 and eventCounter = 0]
    by blast
qed

end
